theory Spec2Isabelle
  imports Complex_Main "HOL-Library.Char_ord" "HOL-Library.List_Lexorder"
begin

section \<open>Pumpfessor Joe: the schedule generator and the workout builder\<close>

text \<open>
  The development embeds the algorithmic core of \<^verbatim>\<open>workout_calendar.py\<close> and
  \<^verbatim>\<open>workout_planner.py\<close>. Streamlit's session state is an explicit record that the
  functions take and return; a Python exception is the left summand of the result.

  Conventions of the embedding:
  \<^item> a \<^verbatim>\<open>datetime.date\<close> is its proleptic Gregorian ordinal, an \<open>int\<close> between 1
    (0001-01-01) and 3652059 (9999-12-31); 2024-01-01 is 738886. \<^verbatim>\<open>(a - b).days\<close> is
    \<open>a - b\<close>, and \<^verbatim>\<open>d + timedelta(days=k)\<close> is \<open>d + k\<close> or, outside that range,
    OverflowError.
  \<^item> Python's unbounded \<^verbatim>\<open>int\<close> is \<open>int\<close>.
  \<^item> a Python \<^verbatim>\<open>float\<close> is an exact rational (\<open>rat\<close>), and the conversion of an
    integer too large for a double raises OverflowError, as it does in Python. Two places
    let a float decide a result. One is \<^verbatim>\<open>round(minutes / 8)\<close>: the quotient is exact
    in binary floating point below \<open>2 ^ 53\<close>, and beyond that both the double and the
    exact quotient are far outside the interval from 3 to 10 to which the result is
    clamped. The other is \<^verbatim>\<open>int(base * 0.8)\<close> and \<^verbatim>\<open>int(base * 1.2)\<close> for
    \<open>base\<close> between 3 and 10, where the truncated double product equals the truncated
    exact product for each of the eight values of \<open>base\<close>.
\<close>

subsection \<open>Errors\<close>

datatype py_error = ZeroDivisionError | IndexError | OverflowError | StreamlitAPIException

subsection \<open>The calendar: \<^verbatim>\<open>workout_calendar.py\<close>\<close>

text \<open>
  A schedule entry is the dict \<^verbatim>\<open>{date, kind, label, done}\<close>. The field
  \<^verbatim>\<open>done\<close> is named \<open>is_done\<close> here, \<open>done\<close> being a keyword of the proof language.
\<close>

record entry =
  date :: int
  kind :: string
  label :: string
  is_done :: bool

text \<open>
  \<^verbatim>\<open>date.min\<close> and \<^verbatim>\<open>date.max\<close> as ordinals, and \<^verbatim>\<open>d + timedelta(days=k)\<close>,
  which raises OverflowError when the sum is not a date.
\<close>

definition date_min :: int where
  "date_min = 1"

definition date_max :: int where
  "date_max = 3652059"

definition date_add :: "int \<Rightarrow> int \<Rightarrow> py_error + int" where
  "date_add d k = (if d + k < date_min \<or> date_max < d + k then Inl OverflowError else Inr (d + k))"

text \<open>Lines 37 to 41 of \<^verbatim>\<open>generate_schedule\<close>: the clamped frequencies and the pattern.\<close>

definition clamp_hyper :: "int \<Rightarrow> int" where
  "clamp_hyper hyper_per_week = max 0 (min 7 hyper_per_week)"

definition clamp_cardio :: "int \<Rightarrow> int \<Rightarrow> int" where
  "clamp_cardio hyper_per_week cardio_per_week =
     max 0 (min (7 - clamp_hyper hyper_per_week) cardio_per_week)"

definition week_pattern :: "int \<Rightarrow> int \<Rightarrow> string list" where
  "week_pattern hyper_per_week cardio_per_week =
     (let h = clamp_hyper hyper_per_week;
          c = clamp_cardio hyper_per_week cardio_per_week;
          rest_per_week = 7 - h - c
      in replicate (nat h) ''H'' @ replicate (nat c) ''C'' @ replicate (nat rest_per_week) ''R'')"

text \<open>
  The body of the loop over \<^verbatim>\<open>offset\<close>: the entry of one day and the label counter after
  it. Line 47 computes the date first and raises OverflowError past the last date;
  \<^verbatim>\<open>label_idx % len(split_labels)\<close> raises ZeroDivisionError on an empty list of
  labels.
\<close>

definition day_entry ::
  "string list \<Rightarrow> string list \<Rightarrow> int \<Rightarrow> nat \<Rightarrow> nat \<Rightarrow> py_error + (entry \<times> nat)" where
  "day_entry split_labels pattern start_date offset label_idx =
     (case date_add start_date (int offset) of
        Inl e \<Rightarrow> Inl e
      | Inr d \<Rightarrow>
          (let symbol = pattern ! (offset mod 7)
           in if symbol = ''H'' then
                (if length split_labels = 0 then Inl ZeroDivisionError
                 else Inr (\<lparr>date = d, kind = ''Hypertrophy'',
                            label = split_labels ! (label_idx mod length split_labels),
                            is_done = False\<rparr>, label_idx + 1))
              else if symbol = ''C'' then
                Inr (\<lparr>date = d, kind = ''Cardio'', label = ''Cardio'', is_done = False\<rparr>, label_idx)
              else
                Inr (\<lparr>date = d, kind = ''Rest'', label = ''Rest'', is_done = False\<rparr>, label_idx)))"

text \<open>
  The loop \<^verbatim>\<open>for offset in range(num_days)\<close>, with its two variables \<^verbatim>\<open>schedule\<close>
  and \<^verbatim>\<open>label_idx\<close> as accumulators.
\<close>

fun schedule_loop ::
  "string list \<Rightarrow> string list \<Rightarrow> int \<Rightarrow> nat list \<Rightarrow> entry list \<Rightarrow> nat \<Rightarrow> py_error + entry list" where
  "schedule_loop split_labels pattern start_date [] schedule label_idx = Inr schedule"
| "schedule_loop split_labels pattern start_date (offset # offsets) schedule label_idx =
     (case day_entry split_labels pattern start_date offset label_idx of
        Inl e \<Rightarrow> Inl e
      | Inr (en, label_idx') \<Rightarrow>
          schedule_loop split_labels pattern start_date offsets (schedule @ [en]) label_idx')"

text \<open>\<^verbatim>\<open>range(num_days)\<close> is empty for a negative \<^verbatim>\<open>num_days\<close>.\<close>

definition generate_schedule ::
  "string list \<Rightarrow> int \<Rightarrow> int \<Rightarrow> int \<Rightarrow> int \<Rightarrow> py_error + entry list" where
  "generate_schedule split_labels hyper_per_week cardio_per_week start_date num_days =
     schedule_loop split_labels (week_pattern hyper_per_week cardio_per_week) start_date
       [0..<nat num_days] [] 0"

text \<open>
  The part of \<^verbatim>\<open>streamlit.session_state\<close> the calendar uses. \<open>None\<close> is a key that is
  not in the state.
\<close>

record cal_state =
  plan :: "entry list option"
  plan_start :: "int option"

text \<open>
  \<^verbatim>\<open>extend_schedule_if_needed\<close>. \<^verbatim>\<open>date.today()\<close> is the argument \<open>today\<close>. The
  first block runs when the key is missing or the list is empty; \<^verbatim>\<open>state.plan[-1]\<close>
  raises IndexError on an empty list. After the first block the plan is there and has sixty
  entries or more, so neither failing branch of the second block is ever taken; they are
  written out because the case distinction has to be total.
\<close>

definition bootstrap_plan ::
  "string list \<Rightarrow> int \<Rightarrow> int \<Rightarrow> int \<Rightarrow> cal_state \<Rightarrow> py_error + cal_state" where
  "bootstrap_plan split_labels hyper_per_week cardio_per_week today st =
     (if plan st = None \<or> plan st = Some [] then
        (case generate_schedule split_labels hyper_per_week cardio_per_week today 60 of
           Inl e \<Rightarrow> Inl e
         | Inr p \<Rightarrow> Inr (st\<lparr>plan := Some p, plan_start := Some today\<rparr>))
      else Inr st)"

definition extend_schedule_if_needed ::
  "string list \<Rightarrow> int \<Rightarrow> int \<Rightarrow> int \<Rightarrow> int \<Rightarrow> cal_state \<Rightarrow> py_error + cal_state" where
  "extend_schedule_if_needed split_labels hyper_per_week cardio_per_week until_date today st =
     (case bootstrap_plan split_labels hyper_per_week cardio_per_week today st of
        Inl e \<Rightarrow> Inl e
      | Inr st1 \<Rightarrow>
          (case plan st1 of
             None \<Rightarrow> Inl IndexError
           | Some p \<Rightarrow>
               if p = [] then Inl IndexError
               else
                 let last_day = date (last p) in
                 if last_day < until_date then
                   (case date_add last_day 1 of
                      Inl e \<Rightarrow> Inl e
                    | Inr extra_start \<Rightarrow>
                        (let extra_days = (until_date - extra_start) + 30
                         in case generate_schedule split_labels hyper_per_week cardio_per_week
                                   extra_start extra_days of
                              Inl e \<Rightarrow> Inl e
                            | Inr extra \<Rightarrow> Inr (st1\<lparr>plan := Some (p @ extra)\<rparr>)))
                 else Inr st1))"

text \<open>Counting the symbols of a pattern, and reading a plan.\<close>

definition count_symbol :: "string \<Rightarrow> string list \<Rightarrow> int" where
  "count_symbol s pattern = int (length (filter (\<lambda>x. x = s) pattern))"

definition hyper_labels :: "entry list \<Rightarrow> string list" where
  "hyper_labels p = map label (filter (\<lambda>e. kind e = ''Hypertrophy'') p)"

text \<open>The first \<open>n\<close> labels of the rotation that starts with counter \<open>k\<close>.\<close>

definition rotation :: "string list \<Rightarrow> nat \<Rightarrow> nat \<Rightarrow> string list" where
  "rotation split_labels k n = map (\<lambda>i. split_labels ! (i mod length split_labels)) [k..<k + n]"

definition label_rotation_holds :: "string list \<Rightarrow> entry list \<Rightarrow> bool" where
  "label_rotation_holds split_labels p =
     (hyper_labels p = rotation split_labels 0 (length (hyper_labels p)))"


subsection \<open>The workout builder: \<^verbatim>\<open>workout_planner.py\<close>\<close>

text \<open>
  A row of the exercise table. The columns \<^verbatim>\<open>Equipment Required\<close> and \<^verbatim>\<open>Link\<close>
  may be absent (\<^verbatim>\<open>r.get(column, default)\<close>), the other two are always there.
\<close>

record exercise_row =
  exercise :: string
  muscle_group :: string
  equipment_required :: "string option"
  row_link :: "string option"

text \<open>An element of the returned plan, the dict built in lines 133 to 141.\<close>

record planned_exercise =
  name :: string
  muscle :: string
  equipment :: string
  sets :: int
  reps :: string
  rest :: string
  link :: string

text \<open>
  \<^verbatim>\<open>str.lower\<close> on the letters A to Z; every keyword of the table below is ASCII.
\<close>

definition lower_char :: "char \<Rightarrow> char" where
  "lower_char c =
     (let n = (of_char c :: nat) in if 65 \<le> n \<and> n \<le> 90 then char_of (n + 32) else c)"

definition lower :: "string \<Rightarrow> string" where
  "lower s = map lower_char s"

text \<open>\<^verbatim>\<open>key in title\<close> on strings: \<open>key\<close> occurs as a contiguous part of \<open>title\<close>.\<close>

fun occurs_in :: "string \<Rightarrow> string \<Rightarrow> bool" where
  "occurs_in key [] = (key = [])"
| "occurs_in key (c # cs) = (take (length key) (c # cs) = key \<or> occurs_in key cs)"

definition mapping :: "(string \<times> string list) list" where
  "mapping =
     [(''push'', [''Chest'', ''Triceps'', ''Shoulders'']),
      (''pull'', [''Back'', ''Biceps'']),
      (''legs'', [''Legs'', ''Quads'', ''Hamstrings'', ''Glutes'']),
      (''upper'', [''Chest'', ''Shoulders'', ''Back'', ''Arms'']),
      (''lower'', [''Legs'', ''Quads'', ''Hamstrings'', ''Glutes'']),
      (''arms'', [''Biceps'', ''Triceps'', ''Forearms'']),
      (''chest'', [''Chest'']),
      (''back'', [''Back'']),
      (''shoulder'', [''Shoulders'']),
      (''glute'', [''Glutes'']),
      (''core'', [''Abs'', ''Core'']),
      (''abs'', [''Abs'', ''Core''])]"

text \<open>
  \<^verbatim>\<open>infer_muscles_from_title\<close>. The source collects a Python set and returns
  \<^verbatim>\<open>list(found)\<close>, whose order is not fixed; the result is only ever tested for
  membership, so the model returns the members without repetition in table order.
\<close>

definition infer_muscles_from_title :: "string \<Rightarrow> string list \<Rightarrow> string list" where
  "infer_muscles_from_title title all_muscles =
     (let t = lower title;
          found = remdups (concat (map (\<lambda>(key, muscles).
                     if occurs_in key t then filter (\<lambda>m. m \<in> set all_muscles) muscles else [])
                   mapping))
      in if found = [] then take 3 all_muscles else found)"

text \<open>
  Python's \<^verbatim>\<open>round\<close> of a float (ties go to the even integer) and \<^verbatim>\<open>int\<close> of a
  float (truncation towards zero).
\<close>

definition py_round :: "rat \<Rightarrow> int" where
  "py_round x =
     (let f = \<lfloor>x\<rfloor>; d = x - of_int f
      in if d < 1 / 2 then f else if 1 / 2 < d then f + 1 else if even f then f else f + 1)"

definition py_int :: "rat \<Rightarrow> int" where
  "py_int x = (if 0 \<le> x then \<lfloor>x\<rfloor> else \<lceil>x\<rceil>)"

text \<open>
  An integer converts to a double when, rounded to nearest, it stays below \<open>2 ^ 1024\<close>;
  from \<open>2 ^ 1024 - 2 ^ 970\<close> on, \<^verbatim>\<open>float(n)\<close> and the implicit conversion in
  \<^verbatim>\<open>n * 1.6\<close> raise OverflowError. The true division \<^verbatim>\<open>n / 8\<close> of an integer
  rounds the quotient in the same way, and raises OverflowError when the quotient reaches
  that size.
\<close>

definition float_limit :: int where
  "float_limit = 2 ^ 1024 - 2 ^ 970"

definition py_float :: "int \<Rightarrow> py_error + rat" where
  "py_float n = (if float_limit \<le> \<bar>n\<bar> then Inl OverflowError else Inr (of_int n))"

definition div_by_8 :: "int \<Rightarrow> py_error + rat" where
  "div_by_8 n = (if 8 * float_limit \<le> \<bar>n\<bar> then Inl OverflowError else Inr (of_int n / 8))"

definition compute_num_exercises :: "int \<Rightarrow> string \<Rightarrow> py_error + int" where
  "compute_num_exercises minutes intensity =
     (case div_by_8 minutes of
        Inl e \<Rightarrow> Inl e
      | Inr q \<Rightarrow>
          (let base = max 3 (min 10 (py_round q))
           in if intensity = ''Light'' then Inr (max 3 (py_int (of_int base * (8 / 10))))
              else if intensity = ''Moderate'' then Inr base
              else Inr (min 12 (py_int (of_int base * (12 / 10))))))"

text \<open>
  \<^verbatim>\<open>score_exercise\<close>. The draw of \<^verbatim>\<open>random.uniform(-1, 1)\<close> is the argument
  \<open>jitter\<close>; \<^verbatim>\<open>soreness.get(mg, 0)\<close> is 0 for a muscle group without a rating, and
  its product with the float 1.6 converts it to a float first.
\<close>

definition score_exercise ::
  "rat \<Rightarrow> exercise_row \<Rightarrow> string list \<Rightarrow> (string \<rightharpoonup> int) \<Rightarrow> string
     \<Rightarrow> py_error + rat" where
  "score_exercise jitter row targets soreness intensity =
     (let mg = muscle_group row;
          score0 = (if mg \<in> set targets then 6 else 0)
      in case py_float (case soreness mg of None \<Rightarrow> 0 | Some s \<Rightarrow> s) of
           Inl e \<Rightarrow> Inl e
         | Inr s \<Rightarrow> Inr (score0 - s * (16 / 10) + jitter))"

text \<open>
  \<^verbatim>\<open>df.apply(..., axis=1)\<close>: the score of every row in row order, up to the first row
  whose score raises.
\<close>

fun score_rows ::
  "(nat \<times> exercise_row \<Rightarrow> py_error + rat) \<Rightarrow> (nat \<times> exercise_row) list
     \<Rightarrow> py_error + (rat \<times> exercise_row) list" where
  "score_rows f [] = Inr []"
| "score_rows f (x # xs) =
     (case f x of
        Inl e \<Rightarrow> Inl e
      | Inr s \<Rightarrow>
          (case score_rows f xs of
             Inl e \<Rightarrow> Inl e
           | Inr ys \<Rightarrow> Inr ((s, snd x) # ys)))"

text \<open>
  The en dash of the source's string literals is its three bytes in UTF-8.
\<close>

definition en_dash :: string where
  "en_dash = [char_of (226 :: nat), char_of (128 :: nat), char_of (147 :: nat)]"

definition sets_reps_rest :: "string \<Rightarrow> int \<times> string \<times> string" where
  "sets_reps_rest intensity =
     (if intensity = ''Light'' then (2, ''12'' @ en_dash @ ''15'', ''45'' @ en_dash @ ''60 sec'')
      else if intensity = ''Moderate'' then (3, ''8'' @ en_dash @ ''12'', ''60'' @ en_dash @ ''90 sec'')
      else (4, ''6'' @ en_dash @ ''10'', ''90'' @ en_dash @ ''120 sec''))"

text \<open>
  Lines 115 and 116: a muscle group is in \<^verbatim>\<open>very_sore\<close> when the soreness dict rates
  it 8 or more, and the rows of such a group are dropped.
\<close>

definition very_sore :: "(string \<rightharpoonup> int) \<Rightarrow> string \<Rightarrow> bool" where
  "very_sore soreness m = (case soreness m of None \<Rightarrow> False | Some s \<Rightarrow> 8 \<le> s)"

definition drop_very_sore :: "(string \<rightharpoonup> int) \<Rightarrow> exercise_row list \<Rightarrow> exercise_row list" where
  "drop_very_sore soreness df = filter (\<lambda>r. \<not> very_sore soreness (muscle_group r)) df"

definition to_exercise :: "int \<times> string \<times> string \<Rightarrow> exercise_row \<Rightarrow> planned_exercise" where
  "to_exercise srr r =
     (case srr of (s, rp, rs) \<Rightarrow>
        \<lparr>name = exercise r, muscle = muscle_group r,
         equipment = (case equipment_required r of None \<Rightarrow> en_dash | Some e \<Rightarrow> e),
         sets = s, reps = rp, rest = rs,
         link = (case row_link r of None \<Rightarrow> [] | Some l \<Rightarrow> l)\<rparr>)"

text \<open>
  \<^verbatim>\<open>build_workout_plan\<close>. The \<open>i\<close>-th call of \<^verbatim>\<open>random.uniform\<close> (one per
  remaining row, in row order) returns \<open>jitter i\<close>. \<^verbatim>\<open>sort_values\<close> with
  \<^verbatim>\<open>ascending=False\<close> is a sort on the negated score; rows of equal score are kept in
  row order here, where pandas fixes no order.
\<close>

definition build_workout_plan ::
  "(nat \<Rightarrow> rat) \<Rightarrow> exercise_row list \<Rightarrow> string \<Rightarrow> int \<Rightarrow> string \<Rightarrow> (string \<rightharpoonup> int) \<Rightarrow> string
     \<Rightarrow> py_error + planned_exercise list" where
  "build_workout_plan jitter df title minutes wishes soreness intensity =
     (let targets = infer_muscles_from_title title (sort (remdups (map muscle_group df)));
          df1 = drop_very_sore soreness df
      in if df1 = [] then Inr []
         else
           (case score_rows (\<lambda>(i, r). score_exercise (jitter i) r targets soreness intensity)
                   (enumerate 0 df1) of
              Inl e \<Rightarrow> Inl e
            | Inr scored \<Rightarrow>
                (let ranked = sort_key (\<lambda>(score, r). - score) scored
                 in case compute_num_exercises minutes intensity of
                      Inl e \<Rightarrow> Inl e
                    | Inr n \<Rightarrow>
                        (let num = min n (int (length ranked))
                         in Inr (map (\<lambda>(score, r). to_exercise (sets_reps_rest intensity) r)
                                   (take (nat num) ranked))))))"

text \<open>The plan of a call that returned, and no exercise for one that raised.\<close>

definition returned_plan :: "py_error + planned_exercise list \<Rightarrow> planned_exercise list" where
  "returned_plan r = (case r of Inl e \<Rightarrow> [] | Inr p \<Rightarrow> p)"

text \<open>
  What the specification writes for the number of exercises: the rounded product for
  Light, the product itself otherwise, clamped between 3 and 12.
\<close>

definition spec_clamp :: "rat \<Rightarrow> rat \<Rightarrow> rat \<Rightarrow> rat" where
  "spec_clamp x lo hi = max lo (min hi x)"

definition spec_num_exercises :: "int \<Rightarrow> string \<Rightarrow> rat" where
  "spec_num_exercises minutes intensity =
     (let base = spec_clamp (of_int (py_round (of_int minutes / 8))) 3 10
      in if intensity = ''Light'' then spec_clamp (of_int (py_round (base * (8 / 10)))) 3 12
         else if intensity = ''Moderate'' then base
         else spec_clamp (base * (12 / 10)) 3 12)"

subsection \<open>The session: \<^verbatim>\<open>show_flashcards\<close> and its caller\<close>

record session =
  workout :: "planned_exercise list"
  current_card :: int
  finished :: bool

datatype button = Next | Previous

text \<open>
  One run of \<^verbatim>\<open>show_flashcards\<close> with one button pressed. \<^verbatim>\<open>exercises[idx]\<close>
  raises IndexError outside the list (a negative index counts from the end), and
  \<^verbatim>\<open>st.progress\<close> refuses a value below 0, which \<^verbatim>\<open>(idx + 1) / total\<close> is for an
  index below -1. The Previous button is only drawn when \<^verbatim>\<open>idx > 0\<close>, so at index 0
  there is nothing to press and the state stays as it is.
\<close>

definition show_flashcards :: "button \<Rightarrow> session \<Rightarrow> py_error + session" where
  "show_flashcards b st =
     (let idx = current_card st; total = int (length (workout st))
      in if idx < - total \<or> total \<le> idx then Inl IndexError
         else if idx + 1 < 0 then Inl StreamlitAPIException
         else
           (case b of
              Previous \<Rightarrow>
                if 0 < idx then Inr (st\<lparr>current_card := current_card st - 1\<rparr>) else Inr st
            | Next \<Rightarrow>
                (let st1 = st\<lparr>current_card := current_card st + 1\<rparr>
                 in if total \<le> current_card st1 then Inr (st1\<lparr>finished := True\<rparr>) else Inr st1)))"

text \<open>
  \<^verbatim>\<open>main\<close> shows the flashcards only while the session is not finished; the completion
  screen has neither button.
\<close>

definition press :: "button \<Rightarrow> session \<Rightarrow> py_error + session" where
  "press b st = (if finished st then Inr st else show_flashcards b st)"

fun presses :: "button list \<Rightarrow> session \<Rightarrow> py_error + session" where
  "presses [] st = Inr st"
| "presses (b # bs) st = (case press b st of Inl e \<Rightarrow> Inl e | Inr st' \<Rightarrow> presses bs st')"

definition start_session :: "planned_exercise list \<Rightarrow> session" where
  "start_session w = \<lparr>workout = w, current_card = 0, finished = False\<rparr>"

subsection \<open>Concrete inputs\<close>


definition one_day_state :: cal_state where
  "one_day_state =
     \<lparr>plan = Some [\<lparr>date = 738886, kind = ''Hypertrophy'', label = ''Push'', is_done = True\<rparr>],
      plan_start = Some 738886\<rparr>"

definition no_jitter :: "nat \<Rightarrow> rat" where
  "no_jitter i = 0"

definition chest_row :: exercise_row where
  "chest_row = \<lparr>exercise = ''Bench Press'', muscle_group = ''Chest'',
                 equipment_required = Some ''Barbell'', row_link = None\<rparr>"

definition four_rows :: "exercise_row list" where
  "four_rows =
     [chest_row,
      \<lparr>exercise = ''Barbell Row'', muscle_group = ''Back'',
       equipment_required = Some ''Barbell'', row_link = None\<rparr>,
      \<lparr>exercise = ''Squat'', muscle_group = ''Legs'',
       equipment_required = None, row_link = None\<rparr>,
      \<lparr>exercise = ''Overhead Press'', muscle_group = ''Shoulders'',
       equipment_required = None, row_link = Some ''http://example.org/ohp''\<rparr>]"

definition five_rows :: "exercise_row list" where
  "five_rows =
     \<lparr>exercise = ''Curl'', muscle_group = ''Biceps'',
      equipment_required = None, row_link = None\<rparr> # four_rows"

definition no_soreness :: "string \<rightharpoonup> int" where
  "no_soreness = Map.empty"

definition chest_sore :: "string \<rightharpoonup> int" where
  "chest_sore = [''Chest'' \<mapsto> 9]"

definition push_day_plan :: "planned_exercise list" where
  "push_day_plan =
     returned_plan (build_workout_plan no_jitter four_rows ''Push Day'' 45 [] chest_sore ''Moderate'')"

definition late_state :: cal_state where
  "late_state =
     \<lparr>plan = Some [\<lparr>date = 3652028, kind = ''Hypertrophy'', label = ''Push'', is_done = False\<rparr>],
      plan_start = Some 3652028\<rparr>"

section \<open>Properties of the calendar\<close>

lemma clamp_bounds:
  "0 \<le> clamp_hyper h \<and> clamp_hyper h \<le> 7 \<and> 0 \<le> clamp_cardio h c \<and>
   clamp_hyper h + clamp_cardio h c \<le> 7"
  unfolding clamp_hyper_def clamp_cardio_def by linarith

lemma clamp_sum:
  "nat (clamp_hyper h) + (nat (clamp_cardio h c) + nat (7 - clamp_hyper h - clamp_cardio h c)) = 7"
  using clamp_bounds [of h c] by linarith

lemma length_week_pattern: "length (week_pattern h c) = 7"
  by (simp add: week_pattern_def Let_def clamp_sum)

lemma count_H: "count_symbol ''H'' (week_pattern h c) = clamp_hyper h"
  using clamp_bounds [of h c] by (simp add: week_pattern_def count_symbol_def Let_def)

lemma count_C: "count_symbol ''C'' (week_pattern h c) = clamp_cardio h c"
  using clamp_bounds [of h c] by (simp add: week_pattern_def count_symbol_def Let_def)

lemma count_R: "count_symbol ''R'' (week_pattern h c) = 7 - clamp_hyper h - clamp_cardio h c"
  using clamp_bounds [of h c] by (simp add: week_pattern_def count_symbol_def Let_def)

text \<open>
  Claim C3. For all integers \<open>h\<close> and \<open>c\<close> the weekly pattern has exactly seven symbols,
  \<open>clamp(h, 0, 7)\<close> of them H and \<open>clamp(c, 0, 7 - countH)\<close> of them C, and the three
  counts add up to seven.
\<close>

theorem week_pattern_counts:
  "length (week_pattern h c) = 7 \<and>
   count_symbol ''H'' (week_pattern h c) = max 0 (min 7 h) \<and>
   count_symbol ''C'' (week_pattern h c) = max 0 (min (7 - max 0 (min 7 h)) c) \<and>
   count_symbol ''H'' (week_pattern h c) + count_symbol ''C'' (week_pattern h c)
     + count_symbol ''R'' (week_pattern h c) = 7"
proof (intro conjI)
  show "length (week_pattern h c) = 7" by (rule length_week_pattern)
  show "count_symbol ''H'' (week_pattern h c) = max 0 (min 7 h)"
    unfolding count_H clamp_hyper_def by (rule refl)
  show "count_symbol ''C'' (week_pattern h c) = max 0 (min (7 - max 0 (min 7 h)) c)"
    unfolding count_C clamp_cardio_def clamp_hyper_def by (rule refl)
  show "count_symbol ''H'' (week_pattern h c) + count_symbol ''C'' (week_pattern h c)
     + count_symbol ''R'' (week_pattern h c) = 7"
    unfolding count_H count_C count_R by linarith
qed

lemma date_add_Inr: "date_add d k = Inr x \<Longrightarrow> x = d + k"
  by (simp add: date_add_def split: if_splits)

lemma date_add_in_range:
  "date_min \<le> d + k \<Longrightarrow> d + k \<le> date_max \<Longrightarrow> date_add d k = Inr (d + k)"
  by (simp add: date_add_def)

lemma day_entry_cases:
  assumes "day_entry ls pat start off idx = Inr (en, k)"
  shows "date en = start + int off \<and> \<not> is_done en \<and>
         ((kind en = ''Hypertrophy'' \<and> label en = ls ! (idx mod length ls) \<and> k = idx + 1)
          \<or> (kind en \<noteq> ''Hypertrophy'' \<and> k = idx))"
proof -
  from assms obtain d where d: "date_add start (int off) = Inr d"
    by (auto simp: day_entry_def split: sum.splits)
  then have "d = start + int off" by (rule date_add_Inr)
  with assms d show ?thesis
    by (auto simp: day_entry_def Let_def split: if_splits)
qed

lemma day_entry_total:
  assumes "ls \<noteq> []" "date_min \<le> start + int off" "start + int off \<le> date_max"
  shows "\<exists>en k. day_entry ls pat start off idx = Inr (en, k)"
  using assms by (simp add: day_entry_def Let_def date_add_in_range)

lemma rotation_Suc: "rotation ls k (Suc n) = ls ! (k mod length ls) # rotation ls (Suc k) n"
  by (simp add: rotation_def upt_conv_Cons del: upt_Suc)

lemma hyper_labels_Cons:
  "hyper_labels (e # p) = (if kind e = ''Hypertrophy'' then label e # hyper_labels p else hyper_labels p)"
  by (simp add: hyper_labels_def)

lemma schedule_loop_struct:
  "schedule_loop ls pat start offs sched idx = Inr out \<Longrightarrow>
   \<exists>seg. out = sched @ seg \<and> map date seg = map (\<lambda>off. start + int off) offs \<and>
         (\<forall>e \<in> set seg. \<not> is_done e) \<and>
         hyper_labels seg = rotation ls idx (length (hyper_labels seg))"
proof (induction offs arbitrary: sched idx)
  case Nil
  then show ?case by (simp add: hyper_labels_def rotation_def)
next
  case (Cons off offs)
  from Cons.prems obtain en k where
    d: "day_entry ls pat start off idx = Inr (en, k)" and
    l: "schedule_loop ls pat start offs (sched @ [en]) k = Inr out"
    by (auto split: sum.splits)
  from Cons.IH [OF l] obtain seg where
    s: "out = (sched @ [en]) @ seg" "map date seg = map (\<lambda>off. start + int off) offs"
       "\<forall>e \<in> set seg. \<not> is_done e" "hyper_labels seg = rotation ls k (length (hyper_labels seg))"
    by blast
  note c = day_entry_cases [OF d]
  have "hyper_labels (en # seg) = rotation ls idx (length (hyper_labels (en # seg)))"
  proof (cases "kind en = ''Hypertrophy''")
    case True
    with c have "k = Suc idx" "label en = ls ! (idx mod length ls)" by auto
    with True s(4) show ?thesis by (simp add: hyper_labels_Cons rotation_Suc)
  next
    case False
    with c have "k = idx" by auto
    with False s(4) show ?thesis by (simp add: hyper_labels_Cons)
  qed
  with s c show ?case
    by (intro exI [of _ "en # seg"]) simp
qed

lemma schedule_loop_total:
  assumes "ls \<noteq> []"
    and "\<forall>off \<in> set offs. date_min \<le> start + int off \<and> start + int off \<le> date_max"
  shows "\<exists>out. schedule_loop ls pat start offs sched idx = Inr out"
  using assms(2)
proof (induction offs arbitrary: sched idx)
  case Nil
  then show ?case by simp
next
  case (Cons off offs)
  from Cons.prems have "date_min \<le> start + int off" "start + int off \<le> date_max" by simp_all
  from day_entry_total [OF assms(1) this] obtain en k where
    d: "day_entry ls pat start off idx = Inr (en, k)" by blast
  from Cons.prems have
    "\<forall>off \<in> set offs. date_min \<le> start + int off \<and> start + int off \<le> date_max" by simp
  from Cons.IH [OF this, of "sched @ [en]" k] d show ?case by simp
qed

lemma generate_schedule_struct:
  assumes "generate_schedule ls h c start n = Inr p"
  shows "map date p = map (\<lambda>i. start + int i) [0..<nat n] \<and> (\<forall>e \<in> set p. \<not> is_done e)
         \<and> label_rotation_holds ls p"
  using schedule_loop_struct [OF assms [unfolded generate_schedule_def]]
  by (auto simp: label_rotation_holds_def)

lemma generate_schedule_total:
  assumes "ls \<noteq> []" "date_min \<le> start" "start + n - 1 \<le> date_max"
  shows "\<exists>p. generate_schedule ls h c start n = Inr p"
proof -
  have "\<forall>off \<in> set [0..<nat n]. date_min \<le> start + int off \<and> start + int off \<le> date_max"
    using assms(2,3) by auto
  from schedule_loop_total [OF assms(1) this] show ?thesis
    unfolding generate_schedule_def .
qed

lemma generate_schedule_length:
  "generate_schedule ls h c start n = Inr p \<Longrightarrow> length p = nat n"
  using generate_schedule_struct [of ls h c start n p] 
  by (metis length_map length_upt minus_nat.diff_0)

text \<open>
  Claim C4 fails as it is stated: five days from 9999-12-30 pass the last date that Python
  has, and line 47 raises OverflowError at the third of them.
\<close>

theorem generate_schedule_dates_counterexample:
  "generate_schedule [''Push'', ''Pull'', ''Legs''] 4 2 3652058 5 = Inl OverflowError"
  by code_simp

text \<open>
  Claim C4, amended. With a non-empty list of labels, a start date and a last day
  \<open>start_date + num_days - 1\<close> that is not past 9999-12-31, \<^verbatim>\<open>generate_schedule\<close>
  returns a plan (it does not raise) of \<open>num_days\<close> entries (none for a negative
  \<open>num_days\<close>); the entry at position \<open>i\<close> has the date \<open>start_date + i\<close>, so the dates
  increase strictly by one day with no duplicate and no gap, and no entry is marked done.
\<close>

theorem generate_schedule_dates:
  assumes "split_labels \<noteq> []"
    and "date_min \<le> start_date" and "start_date + num_days - 1 \<le> date_max"
  shows "\<exists>p. generate_schedule split_labels h c start_date num_days = Inr p \<and>
             length p = nat num_days \<and>
             map date p = map (\<lambda>i. start_date + int i) [0..<nat num_days] \<and>
             (\<forall>i < length p. date (p ! i) = start_date + int i) \<and>
             sorted_wrt (<) (map date p) \<and> distinct (map date p) \<and>
             (\<forall>e \<in> set p. \<not> is_done e)"
proof -
  from generate_schedule_total [OF assms] obtain p where
    g: "generate_schedule split_labels h c start_date num_days = Inr p" by blast
  note s = generate_schedule_struct [OF g]
  have len: "length p = nat num_days" by (rule generate_schedule_length [OF g])
  have nth: "\<forall>i < length p. date (p ! i) = start_date + int i"
  proof (intro allI impI)
    fix i assume i: "i < length p"
    then have "date (p ! i) = map date p ! i" by simp
    also have "\<dots> = start_date + int i" using s i len by simp
    finally show "date (p ! i) = start_date + int i" .
  qed
  have srt: "sorted_wrt (<) (map date p)"
    using nth by (simp add: sorted_wrt_iff_nth_less)
  then have "distinct (map date p)"
    using strict_sorted_iff by blast
  with g s len nth srt show ?thesis by blast
qed

theorem generate_schedule_dates_witness:
  "[''Push'', ''Pull'', ''Legs''] \<noteq> [] \<and> date_min \<le> 738886 \<and> 738886 + 7 - 1 \<le> date_max \<and>
   (\<exists>p. generate_schedule [''Push'', ''Pull'', ''Legs''] 4 2 738886 7 = Inr p \<and>
        length p = 7 \<and>
        map date p = [738886, 738887, 738888, 738889, 738890, 738891, 738892])"
proof -
  have ne: "[''Push'', ''Pull'', ''Legs''] \<noteq> []" by simp
  have lo: "date_min \<le> 738886" by (simp add: date_min_def)
  have hi: "738886 + 7 - 1 \<le> date_max" by (simp add: date_max_def)
  from generate_schedule_dates [OF ne lo hi, of 4 2] obtain p where
    "generate_schedule [''Push'', ''Pull'', ''Legs''] 4 2 738886 7 = Inr p"
    "length p = nat 7" "map date p = map (\<lambda>i. 738886 + int i) [0..<nat 7]"
    by blast
  with lo hi show ?thesis by (simp add: upt_rec)
qed

lemma generate_schedule_nonempty:
  "generate_schedule ls h c start n = Inr p \<Longrightarrow> 0 < n \<Longrightarrow> p \<noteq> []"
  using generate_schedule_length [of ls h c start n p] by auto

lemma generate_schedule_last:
  assumes "generate_schedule ls h c start n = Inr p" "0 < n"
  shows "date (last p) = start + n - 1"
proof -
  have ne: "p \<noteq> []" using assms by (rule generate_schedule_nonempty)
  have len: "length p = nat n" using assms(1) by (rule generate_schedule_length)
  have "date (last p) = map date p ! (length p - 1)"
    using ne by (simp add: last_conv_nth)
  also have "\<dots> = map (\<lambda>i. start + int i) [0..<nat n] ! (length p - 1)"
    using generate_schedule_struct [OF assms(1)] by simp
  also have "\<dots> = start + int (nat n - 1)"
    using len assms(2) by simp
  finally show ?thesis using assms(2) by simp
qed

lemma segment_dates_ge:
  assumes "generate_schedule ls h c start n = Inr p" "e \<in> set p"
  shows "start \<le> date e"
proof -
  have "date e \<in> set (map date p)" using assms(2) by simp
  then have "date e \<in> set (map (\<lambda>i. start + int i) [0..<nat n])"
    using generate_schedule_struct [OF assms(1)] by simp
  then show ?thesis by auto
qed

lemma bootstrap_plan_keeps:
  "plan st = Some p \<Longrightarrow> p \<noteq> [] \<Longrightarrow> bootstrap_plan ls h c today st = Inr st"
  by (simp add: bootstrap_plan_def)

lemma bootstrap_plan_cases:
  assumes "bootstrap_plan ls h c today st = Inr st1"
  shows "\<exists>p. plan st1 = Some p \<and> p \<noteq> [] \<and>
           (st1 = st \<or>
            ((plan st = None \<or> plan st = Some []) \<and> generate_schedule ls h c today 60 = Inr p \<and>
             st1 = st\<lparr>plan := Some p, plan_start := Some today\<rparr>))"
proof (cases "plan st = None \<or> plan st = Some []")
  case True
  with assms obtain p where g: "generate_schedule ls h c today 60 = Inr p"
    and s: "st1 = st\<lparr>plan := Some p, plan_start := Some today\<rparr>"
    by (auto simp: bootstrap_plan_def split: sum.splits)
  have "p \<noteq> []" using g by (rule generate_schedule_nonempty) simp
  with True g s show ?thesis by auto
next
  case False
  with assms have "st1 = st" by (simp add: bootstrap_plan_def)
  with False show ?thesis by auto
qed

text \<open>The second half of the function, on a state that already has a non-empty plan.\<close>

lemma extend_existing_covered:
  assumes "plan st = Some p" "p \<noteq> []" "\<not> date (last p) < until"
  shows "extend_schedule_if_needed ls h c until today st = Inr st"
  using assms by (simp add: extend_schedule_if_needed_def bootstrap_plan_keeps)

lemma extend_existing_short:
  assumes "plan st = Some p" "p \<noteq> []" "date (last p) < until"
  shows "extend_schedule_if_needed ls h c until today st =
           (case date_add (date (last p)) 1 of
              Inl e \<Rightarrow> Inl e
            | Inr extra_start \<Rightarrow>
                (case generate_schedule ls h c extra_start (until - extra_start + 30) of
                   Inl e \<Rightarrow> Inl e
                 | Inr extra \<Rightarrow> Inr (st\<lparr>plan := Some (p @ extra)\<rparr>)))"
  using assms
  by (simp add: extend_schedule_if_needed_def bootstrap_plan_keeps Let_def split: sum.splits)

lemma extend_existing_returned:
  assumes "plan st = Some p" "p \<noteq> []" "date (last p) < until"
    and "extend_schedule_if_needed ls h c until today st = Inr st'"
  shows "\<exists>extra. generate_schedule ls h c (date (last p) + 1) (until - (date (last p) + 1) + 30)
                    = Inr extra \<and> st' = st\<lparr>plan := Some (p @ extra)\<rparr>"
proof -
  from assms(4) obtain s where s: "date_add (date (last p)) 1 = Inr s"
    unfolding extend_existing_short [OF assms(1,2,3)] by (auto split: sum.splits)
  then have "s = date (last p) + 1" by (rule date_add_Inr)
  with assms(4) s show ?thesis
    unfolding extend_existing_short [OF assms(1,2,3)] by (auto split: sum.splits)
qed

lemma extend_existing_in_range:
  assumes "plan st = Some p" "p \<noteq> []" "date (last p) < until"
    and "ls \<noteq> []" "date_min \<le> date (last p)" "until + 29 \<le> date_max"
  shows "\<exists>extra. generate_schedule ls h c (date (last p) + 1) (until - (date (last p) + 1) + 30)
                    = Inr extra \<and>
                 extend_schedule_if_needed ls h c until today st
                    = Inr (st\<lparr>plan := Some (p @ extra)\<rparr>)"
proof -
  let ?s = "date (last p) + 1" and ?n = "until - (date (last p) + 1) + 30"
  have lo: "date_min \<le> ?s" using assms(5) by simp
  have hi: "?s + ?n - 1 \<le> date_max" using assms(6) by simp
  have "?s \<le> date_max" using assms(3,6) by simp
  with lo have a: "date_add (date (last p)) 1 = Inr ?s" by (simp add: date_add_in_range)
  from generate_schedule_total [OF assms(4) lo hi] obtain extra where
    g: "generate_schedule ls h c ?s ?n = Inr extra" by blast
  have "extend_schedule_if_needed ls h c until today st = Inr (st\<lparr>plan := Some (p @ extra)\<rparr>)"
    unfolding extend_existing_short [OF assms(1,2,3)] using a g by simp
  with g show ?thesis by blast
qed

lemma extend_after_bootstrap:
  "extend_schedule_if_needed ls h c until today st =
     (case bootstrap_plan ls h c today st of
        Inl e \<Rightarrow> Inl e
      | Inr st1 \<Rightarrow> extend_schedule_if_needed ls h c until today st1)"
proof (cases "bootstrap_plan ls h c today st")
  case (Inl e)
  then show ?thesis by (simp add: extend_schedule_if_needed_def)
next
  case (Inr st1)
  from bootstrap_plan_cases [OF Inr] obtain p where p: "plan st1 = Some p" "p \<noteq> []" by blast
  have "bootstrap_plan ls h c today st1 = Inr st1" using p by (rule bootstrap_plan_keeps)
  with Inr show ?thesis by (simp add: extend_schedule_if_needed_def)
qed

lemma extend_result_covers:
  assumes "extend_schedule_if_needed ls h c until today st = Inr st'"
  shows "\<exists>q. plan st' = Some q \<and> q \<noteq> [] \<and> until \<le> date (last q)"
proof -
  from assms obtain st1 where b: "bootstrap_plan ls h c today st = Inr st1"
    and e: "extend_schedule_if_needed ls h c until today st1 = Inr st'"
    using extend_after_bootstrap [of ls h c until today st] by (auto split: sum.splits)
  from bootstrap_plan_cases [OF b] obtain p where p: "plan st1 = Some p" "p \<noteq> []" by blast
  show ?thesis
  proof (cases "date (last p) < until")
    case False
    with p e have "st' = st1" by (simp add: extend_existing_covered)
    with p False show ?thesis by auto
  next
    case True
    let ?s = "date (last p) + 1" and ?n = "until - (date (last p) + 1) + 30"
    from extend_existing_returned [OF p True e] obtain extra where
      g: "generate_schedule ls h c ?s ?n = Inr extra"
      and s: "st' = st1\<lparr>plan := Some (p @ extra)\<rparr>"
      by blast
    have n: "0 < ?n" using True by simp
    have "extra \<noteq> []" using g n by (rule generate_schedule_nonempty)
    moreover have "date (last extra) = ?s + ?n - 1" using g n by (rule generate_schedule_last)
    ultimately show ?thesis using s by simp
  qed
qed

lemma extend_keeps_prefix:
  assumes "plan st = Some p" "p \<noteq> []"
    and "extend_schedule_if_needed ls h c until today st = Inr st'"
  shows "\<exists>seg. plan st' = Some (p @ seg) \<and> (\<forall>e \<in> set seg. date (last p) < date e)"
proof (cases "date (last p) < until")
  case False
  with assms have "st' = st" by (simp add: extend_existing_covered)
  with assms(1) show ?thesis by (intro exI [of _ "[]"]) simp
next
  case True
  let ?s = "date (last p) + 1" and ?n = "until - (date (last p) + 1) + 30"
  from extend_existing_returned [OF assms(1,2) True assms(3)] obtain extra where
    g: "generate_schedule ls h c ?s ?n = Inr extra"
    and s: "st' = st\<lparr>plan := Some (p @ extra)\<rparr>"
    by blast
  have "\<forall>e \<in> set extra. date (last p) < date e"
    using segment_dates_ge [OF g] by fastforce
  with s show ?thesis by (intro exI [of _ extra]) simp
qed

text \<open>
  Claim C5 fails as it is stated: with a plan that ends on 9999-11-30 and \<open>until_date\<close>
  9999-12-15, the segment of 44 days would end in January of the year 10000, and the call
  raises OverflowError instead of appending it.
\<close>

theorem extend_appends_segment_counterexample:
  "extend_schedule_if_needed [''Push'', ''Pull''] 1 0 3652043 3652000 late_state
     = Inl OverflowError"
  by code_simp

text \<open>
  Claim C5, amended. On a state whose non-empty plan ends before \<open>until_date\<close>, where
  \<open>until_date + 29\<close> is not past 9999-12-31 (and the labels are non-empty, so that no call
  raises), \<^verbatim>\<open>extend_schedule_if_needed\<close> changes the state in the plan only, to the old
  plan followed by the segment that \<^verbatim>\<open>generate_schedule\<close> builds from the day after the
  last entry over \<open>(until_date - extra_start) + 30\<close> days; the dates of the segment run on
  from the last date, and every old entry is still at its position, unchanged.
\<close>

theorem extend_appends_segment:
  assumes "plan st = Some p" and "p \<noteq> []" and "date (last p) < until_date"
    and "split_labels \<noteq> []"
    and "date_min \<le> date (last p)" and "until_date + 29 \<le> date_max"
  shows "\<exists>seg. extend_schedule_if_needed split_labels h c until_date today st
                = Inr (st\<lparr>plan := Some (p @ seg)\<rparr>) \<and>
           generate_schedule split_labels h c (date (last p) + 1)
                (until_date - (date (last p) + 1) + 30) = Inr seg \<and>
           length seg = nat (until_date - (date (last p) + 1) + 30) \<and>
           map date seg = map (\<lambda>i. date (last p) + 1 + int i) [0..<length seg] \<and>
           take (length p) (p @ seg) = p \<and>
           (\<forall>i < length p. (p @ seg) ! i = p ! i)"
proof -
  let ?s = "date (last p) + 1" and ?n = "until_date - (date (last p) + 1) + 30"
  from extend_existing_in_range [OF assms, of h c today] obtain seg where
    g: "generate_schedule split_labels h c ?s ?n = Inr seg" and
    e: "extend_schedule_if_needed split_labels h c until_date today st
             = Inr (st\<lparr>plan := Some (p @ seg)\<rparr>)"
    by blast
  have len: "length seg = nat ?n" using g by (rule generate_schedule_length)
  have d: "map date seg = map (\<lambda>i. ?s + int i) [0..<length seg]"
    using generate_schedule_struct [OF g] len by simp
  have "\<forall>i < length p. (p @ seg) ! i = p ! i" by (simp add: nth_append)
  with e g len d show ?thesis by (intro exI [of _ seg]) simp
qed

lemma one_day_state_facts:
  "plan one_day_state
     = Some [\<lparr>date = 738886, kind = ''Hypertrophy'', label = ''Push'', is_done = True\<rparr>]"
  "date (last [\<lparr>date = 738886, kind = ''Hypertrophy'', label = ''Push'', is_done = True\<rparr>])
     < 738890"
  "date_min
     \<le> date (last [\<lparr>date = 738886, kind = ''Hypertrophy'', label = ''Push'', is_done = True\<rparr>])"
  "738890 + 29 \<le> date_max"
  by (simp_all add: one_day_state_def date_min_def date_max_def)

theorem extend_appends_segment_witness:
  "\<exists>seg. extend_schedule_if_needed [''Push'', ''Pull''] 1 0 738890 738886 one_day_state
           = Inr (one_day_state\<lparr>plan := Some
               (\<lparr>date = 738886, kind = ''Hypertrophy'', label = ''Push'', is_done = True\<rparr> # seg)\<rparr>)
         \<and> length seg = 33"
proof -
  let ?p = "[\<lparr>date = 738886, kind = ''Hypertrophy'', label = ''Push'', is_done = True\<rparr>]"
  have 2: "?p \<noteq> []" by simp
  have 4: "[''Push'', ''Pull''] \<noteq> []" by simp
  from extend_appends_segment [OF one_day_state_facts(1) 2 one_day_state_facts(2) 4
      one_day_state_facts(3,4), of 1 0 738886]
  show ?thesis by auto
qed

text \<open>
  Claim C6. When the first call returns a state, a second call with the same \<open>until_date\<close>
  (at any later \<open>today\<close>) returns that state unchanged. If the state had a non-empty plan
  before the first call, that plan is a prefix of the plan afterwards, and the entries dated
  before its last date are the same list before and after.
\<close>

theorem extend_twice_idempotent:
  assumes "extend_schedule_if_needed split_labels h c until_date today st = Inr st'"
  shows "extend_schedule_if_needed split_labels h c until_date today' st' = Inr st' \<and>
         (\<forall>p. plan st = Some p \<and> p \<noteq> [] \<longrightarrow>
            (\<exists>seg. plan st' = Some (p @ seg) \<and>
               filter (\<lambda>e. date e < date (last p)) (p @ seg)
                 = filter (\<lambda>e. date e < date (last p)) p))"
proof -
  from extend_result_covers [OF assms] obtain q where
    q: "plan st' = Some q" "q \<noteq> []" "until_date \<le> date (last q)" by blast
  then have "\<not> date (last q) < until_date" by simp
  with q have second: "extend_schedule_if_needed split_labels h c until_date today' st' = Inr st'"
    by (simp add: extend_existing_covered)
  have "\<exists>seg. plan st' = Some (p @ seg) \<and>
           filter (\<lambda>e. date e < date (last p)) (p @ seg) = filter (\<lambda>e. date e < date (last p)) p"
    if p: "plan st = Some p" "p \<noteq> []" for p
  proof -
    from extend_keeps_prefix [OF p assms] obtain seg where
      s: "plan st' = Some (p @ seg)" "\<forall>e \<in> set seg. date (last p) < date e" by blast
    have "filter (\<lambda>e. date e < date (last p)) seg = []"
      using s(2) by (auto simp: filter_empty_conv)
    with s(1) show ?thesis by (intro exI [of _ seg]) simp
  qed
  with second show ?thesis by blast
qed

theorem extend_twice_idempotent_witness:
  "\<exists>st'. extend_schedule_if_needed [''Push'', ''Pull''] 1 0 738890 738886 one_day_state = Inr st' \<and>
      extend_schedule_if_needed [''Push'', ''Pull''] 1 0 738890 738900 st' = Inr st' \<and>
      (\<exists>seg. plan st' = Some
         (\<lparr>date = 738886, kind = ''Hypertrophy'', label = ''Push'', is_done = True\<rparr> # seg))"
proof -
  let ?p = "[\<lparr>date = 738886, kind = ''Hypertrophy'', label = ''Push'', is_done = True\<rparr>]"
  have 2: "?p \<noteq> []" by simp
  have 4: "[''Push'', ''Pull''] \<noteq> []" by simp
  from extend_existing_in_range [OF one_day_state_facts(1) 2 one_day_state_facts(2) 4
      one_day_state_facts(3,4), of 1 0 738886]
  obtain st' where
    e: "extend_schedule_if_needed [''Push'', ''Pull''] 1 0 738890 738886 one_day_state = Inr st'"
    by blast
  from extend_twice_idempotent [OF e, of 738900] one_day_state_facts(1) 2
  have "extend_schedule_if_needed [''Push'', ''Pull''] 1 0 738890 738900 st' = Inr st' \<and>
        (\<exists>seg. plan st' = Some (?p @ seg))"
    by blast
  with e show ?thesis by auto
qed





section \<open>Properties of the workout builder\<close>

lemma score_rows_rows: "score_rows f xs = Inr ys \<Longrightarrow> map snd ys = map snd xs"
proof (induction xs arbitrary: ys)
  case Nil
  then show ?case by simp
next
  case (Cons x xs)
  from Cons.prems obtain s zs where
    "f x = Inr s" "score_rows f xs = Inr zs" "ys = (s, snd x) # zs"
    by (auto split: sum.splits)
  with Cons.IH [of zs] show ?case by simp
qed

lemma score_rows_total:
  "\<forall>x \<in> set xs. \<exists>s. f x = Inr s \<Longrightarrow> \<exists>ys. score_rows f xs = Inr ys"
proof (induction xs)
  case Nil
  then show ?case by simp
next
  case (Cons x xs)
  from Cons.prems obtain s where "f x = Inr s" by auto
  moreover from Cons obtain ys where "score_rows f xs = Inr ys" by auto
  ultimately show ?case by simp
qed

lemma scored_rows:
  assumes "score_rows f (enumerate 0 xs) = Inr ys"
  shows "map snd ys = xs"
  using score_rows_rows [OF assms] by (simp add: map_snd_enumerate)

text \<open>What a call that returned has computed on the way.\<close>

lemma build_returned:
  assumes "build_workout_plan jitter df title minutes wishes soreness intensity = Inr pl"
  shows "(drop_very_sore soreness df = [] \<and> pl = []) \<or>
         (\<exists>(scored :: (rat \<times> exercise_row) list) n. map snd scored = drop_very_sore soreness df \<and>
            compute_num_exercises minutes intensity = Inr n \<and>
            pl = map (\<lambda>(score, r). to_exercise (sets_reps_rest intensity) r)
                     (take (nat (min n (int (length scored))))
                        (sort_key (\<lambda>(score, r). - score) scored)))"
proof (cases "drop_very_sore soreness df = []")
  case True
  with assms show ?thesis by (simp add: build_workout_plan_def)
next
  case False
  let ?f = "\<lambda>(i, r). score_exercise (jitter i) r
      (infer_muscles_from_title title (sort (remdups (map muscle_group df)))) soreness intensity"
  from assms False obtain scored n where
    s: "score_rows ?f (enumerate 0 (drop_very_sore soreness df)) = Inr scored" and
    n: "compute_num_exercises minutes intensity = Inr n" and
    p: "pl = map (\<lambda>(score, r). to_exercise (sets_reps_rest intensity) r)
                     (take (nat (min n (int (length scored))))
                        (sort_key (\<lambda>(score, r). - score) scored))"
    by (auto simp: build_workout_plan_def Let_def split: sum.splits)
  from scored_rows [OF s] n p show ?thesis by blast
qed

lemma build_rows:
  assumes "build_workout_plan jitter df title minutes wishes soreness intensity = Inr pl"
    and "e \<in> set pl"
  shows "\<exists>r \<in> set (drop_very_sore soreness df). e = to_exercise (sets_reps_rest intensity) r"
proof -
  from build_returned [OF assms(1)] assms(2)
  obtain scored :: "(rat \<times> exercise_row) list" and n where
    m: "map snd scored = drop_very_sore soreness df" and
    p: "pl = map (\<lambda>(score, r). to_exercise (sets_reps_rest intensity) r)
                     (take (nat (min n (int (length scored))))
                        (sort_key (\<lambda>(score, r). - score) scored))"
    by auto
  from assms(2) p obtain sr where
    sr: "sr \<in> set (take (nat (min n (int (length scored))))
                        (sort_key (\<lambda>(score, r). - score) scored))"
        "e = to_exercise (sets_reps_rest intensity) (snd sr)"
    by auto
  from sr(1) have "sr \<in> set scored"
    using set_take_subset [of "nat (min n (int (length scored)))"
        "sort_key (\<lambda>(score, r). - score) scored"]
    by auto
  then have "snd sr \<in> set (map snd scored)" by simp
  with m sr(2) show ?thesis by auto
qed

lemma length_build:
  assumes "build_workout_plan jitter df title minutes wishes soreness intensity = Inr pl"
    and "compute_num_exercises minutes intensity = Inr n"
  shows "length pl = nat (min n (int (length (drop_very_sore soreness df))))"
proof -
  from build_returned [OF assms(1)] show ?thesis
  proof
    assume "drop_very_sore soreness df = [] \<and> pl = []"
    then show ?thesis by simp
  next
    assume "\<exists>(scored :: (rat \<times> exercise_row) list) n. map snd scored = drop_very_sore soreness df \<and>
            compute_num_exercises minutes intensity = Inr n \<and>
            pl = map (\<lambda>(score, r). to_exercise (sets_reps_rest intensity) r)
                     (take (nat (min n (int (length scored))))
                        (sort_key (\<lambda>(score, r). - score) scored))"
    then obtain scored :: "(rat \<times> exercise_row) list" and k where
      m: "map snd scored = drop_very_sore soreness df" and
      k: "compute_num_exercises minutes intensity = Inr k" and
      p: "pl = map (\<lambda>(score, r). to_exercise (sets_reps_rest intensity) r)
                     (take (nat (min k (int (length scored))))
                        (sort_key (\<lambda>(score, r). - score) scored))"
      by blast
    from k assms(2) have kn: "k = n" by simp
    from m have l: "length scored = length (drop_very_sore soreness df)"
      by (metis length_map)
    from p have "length pl = min (length scored) (nat (min k (int (length scored))))"
      by simp
    also have "\<dots> = nat (min k (int (length scored)))" by linarith
    finally show ?thesis unfolding kn l .
  qed
qed

lemma float_limit_large: "1000000 < float_limit"
  by (simp add: float_limit_def)

lemma py_float_in_range: "\<bar>n\<bar> < float_limit \<Longrightarrow> py_float n = Inr (of_int n)"
  by (simp add: py_float_def)

lemma score_exercise_total:
  assumes "\<forall>m s. soreness m = Some s \<longrightarrow> \<bar>s\<bar> < float_limit"
  shows "\<exists>x. score_exercise j r targets soreness intensity = Inr x"
proof -
  have "\<bar>case soreness (muscle_group r) of None \<Rightarrow> 0 | Some s \<Rightarrow> s\<bar> < float_limit"
    using assms float_limit_large by (auto split: option.splits)
  then show ?thesis
    by (simp add: score_exercise_def Let_def py_float_in_range)
qed

lemma build_total:
  assumes "\<forall>m s. soreness m = Some s \<longrightarrow> \<bar>s\<bar> < float_limit"
    and "compute_num_exercises minutes intensity = Inr n"
  shows "\<exists>pl. build_workout_plan jitter df title minutes wishes soreness intensity = Inr pl"
proof -
  let ?t = "infer_muscles_from_title title (sort (remdups (map muscle_group df)))"
  let ?f = "\<lambda>(i, r). score_exercise (jitter i) r ?t soreness intensity"
  have "\<forall>x \<in> set (enumerate 0 (drop_very_sore soreness df)). \<exists>s. ?f x = Inr s"
    using score_exercise_total [OF assms(1)] by auto
  from score_rows_total [OF this] obtain scored where
    "score_rows ?f (enumerate 0 (drop_very_sore soreness df)) = Inr scored" by blast
  with assms(2) show ?thesis
    by (simp add: build_workout_plan_def Let_def)
qed

lemma muscle_to_exercise: "muscle (to_exercise srr r) = muscle_group r"
  by (cases srr) (simp add: to_exercise_def)

text \<open>
  Claim C2. No exercise of a returned plan has a muscle group that the soreness dict rates
  8 or more, and every exercise is built from a row that the filter of lines 115 and 116
  kept, so the sore rows are gone before any score is computed.
\<close>

theorem no_very_sore_exercise:
  assumes "build_workout_plan jitter df title minutes wishes soreness intensity = Inr pl"
  shows "\<forall>e \<in> set pl.
     (\<forall>s. soreness (muscle e) = Some s \<longrightarrow> s < 8) \<and>
     (\<exists>r \<in> set (drop_very_sore soreness df). e = to_exercise (sets_reps_rest intensity) r)"
proof
  fix e
  assume e: "e \<in> set pl"
  from build_rows [OF assms e] obtain r where
    r: "r \<in> set (drop_very_sore soreness df)" "e = to_exercise (sets_reps_rest intensity) r"
    by blast
  from r(1) have "\<not> very_sore soreness (muscle_group r)"
    by (simp add: drop_very_sore_def)
  then have "\<forall>s. soreness (muscle e) = Some s \<longrightarrow> s < 8"
    using r(2) by (auto simp: very_sore_def muscle_to_exercise split: option.splits)
  with r show "(\<forall>s. soreness (muscle e) = Some s \<longrightarrow> s < 8) \<and>
     (\<exists>r \<in> set (drop_very_sore soreness df). e = to_exercise (sets_reps_rest intensity) r)"
    by blast
qed

lemma push_day_plan_returned:
  "build_workout_plan no_jitter four_rows ''Push Day'' 45 [] chest_sore ''Moderate''
     = Inr push_day_plan"
  by code_simp

lemma push_day_plan_muscles:
  "map muscle push_day_plan = [''Shoulders'', ''Back'', ''Legs'']"
  by code_simp

lemma push_day_plan_length: "length push_day_plan = 3"
proof -
  have "length (map muscle push_day_plan) = 3" unfolding push_day_plan_muscles by simp
  then show ?thesis by simp
qed

theorem no_very_sore_exercise_witness:
  "build_workout_plan no_jitter four_rows ''Push Day'' 45 [] chest_sore ''Moderate''
     = Inr push_day_plan \<and>
   map muscle push_day_plan = [''Shoulders'', ''Back'', ''Legs''] \<and>
   push_day_plan ! 0 \<in> set push_day_plan \<and>
   chest_sore (muscle (push_day_plan ! 0)) \<noteq> Some 9"
proof -
  have i: "push_day_plan ! 0 \<in> set push_day_plan"
    using push_day_plan_length by simp
  have "\<forall>e \<in> set push_day_plan. \<forall>s. chest_sore (muscle e) = Some s \<longrightarrow> s < 8"
    using no_very_sore_exercise [OF push_day_plan_returned] by blast
  with i have "chest_sore (muscle (push_day_plan ! 0)) = Some 9 \<longrightarrow> (9::int) < 8" by blast
  then have "chest_sore (muscle (push_day_plan ! 0)) \<noteq> Some 9" by simp
  with i push_day_plan_muscles push_day_plan_returned show ?thesis by blast
qed

lemma py_int_fifths:
  "0 \<le> b \<Longrightarrow> py_int (of_int b * (8 / 10)) = (b * 4) div 5"
  "0 \<le> b \<Longrightarrow> py_int (of_int b * (12 / 10)) = (b * 6) div 5"
proof -
  assume b: "0 \<le> b"
  have "(of_int b :: rat) * (8 / 10) = of_int (b * 4) / of_int 5" by simp
  then have "\<lfloor>(of_int b :: rat) * (8 / 10)\<rfloor> = (b * 4) div 5"
    by (simp only: floor_divide_of_int_eq)
  moreover have "0 \<le> (of_int b :: rat) * (8 / 10)" using b by simp
  ultimately show "py_int (of_int b * (8 / 10)) = (b * 4) div 5" by (simp add: py_int_def)
  have "(of_int b :: rat) * (12 / 10) = of_int (b * 6) / of_int 5" by simp
  then have "\<lfloor>(of_int b :: rat) * (12 / 10)\<rfloor> = (b * 6) div 5"
    by (simp only: floor_divide_of_int_eq)
  moreover have "0 \<le> (of_int b :: rat) * (12 / 10)" using b by simp
  ultimately show "py_int (of_int b * (12 / 10)) = (b * 6) div 5" by (simp add: py_int_def)
qed

lemma py_round_eighths:
  "py_round (of_int m / 8) =
     (if m mod 8 < 4 then m div 8
      else if 4 < m mod 8 then m div 8 + 1
      else if even (m div 8) then m div 8 else m div 8 + 1)"
proof -
  have f: "\<lfloor>(of_int m :: rat) / 8\<rfloor> = m div 8"
    using floor_divide_of_int_eq [of m 8, where ?'a = rat] by simp
  have "(of_int m :: rat) = of_int (8 * (m div 8) + m mod 8)" by simp
  then have "(of_int m :: rat) = 8 * of_int (m div 8) + of_int (m mod 8)"
    by (simp only: of_int_add of_int_mult of_int_numeral)
  then have d: "(of_int m :: rat) / 8 - of_int (m div 8) = of_int (m mod 8) / 8"
    by (simp add: field_simps)
  have lt: "(of_int (m mod 8) / 8 < (1 / 2 :: rat)) = (m mod 8 < 4)"
  proof -
    have "(of_int (m mod 8) / 8 < (1 / 2 :: rat)) = ((of_int (m mod 8) :: rat) < of_int 4)"
      by (simp add: field_simps)
    also have "\<dots> = (m mod 8 < 4)" by (simp only: of_int_less_iff)
    finally show ?thesis .
  qed
  have gt: "((1 / 2 :: rat) < of_int (m mod 8) / 8) = (4 < m mod 8)"
  proof -
    have "((1 / 2 :: rat) < of_int (m mod 8) / 8) = ((of_int 4 :: rat) < of_int (m mod 8))"
      by (simp add: field_simps)
    also have "\<dots> = (4 < m mod 8)" by (simp only: of_int_less_iff)
    finally show ?thesis .
  qed
  show ?thesis
    unfolding py_round_def Let_def f d lt gt by (rule refl)
qed

lemma div_by_8_in_range:
  "\<bar>minutes\<bar> < 8 * float_limit \<Longrightarrow> div_by_8 minutes = Inr (of_int minutes / 8)"
  by (simp add: div_by_8_def)

lemma compute_num_exercises_int:
  assumes "\<bar>minutes\<bar> < 8 * float_limit"
  shows "compute_num_exercises minutes intensity =
     Inr (let base = max 3 (min 10 (py_round (of_int minutes / 8)))
          in if intensity = ''Light'' then max 3 ((base * 4) div 5)
             else if intensity = ''Moderate'' then base
             else min 12 ((base * 6) div 5))"
proof -
  let ?base = "max 3 (min 10 (py_round (of_int minutes / 8)))"
  have b: "0 \<le> ?base" by simp
  have l: "py_int (of_int ?base * (8 / 10)) = (?base * 4) div 5"
    using b by (rule py_int_fifths(1))
  have m: "py_int (of_int ?base * (12 / 10)) = (?base * 6) div 5"
    using b by (rule py_int_fifths(2))
  show ?thesis
    unfolding compute_num_exercises_def div_by_8_in_range [OF assms] sum.case Let_def l m
    by (simp only: if_distrib [of Inr])
qed

lemma count_15_light: "compute_num_exercises 15 ''Light'' = Inr 3"
  by code_simp

lemma count_120_max: "compute_num_exercises 120 ''Max effort'' = Inr 12"
  by code_simp

text \<open>
  Claim C7 fails as it is stated: 45 minutes give base 6, and Light gives
  \<open>int(4.8) = 4\<close> where the claim's \<open>round(4.8)\<close> is 5; on a catalog of five rows and no
  soreness the plan has four exercises.
\<close>

theorem num_exercises_counterexample:
  "compute_num_exercises 45 ''Light'' = Inr 4 \<and> spec_num_exercises 45 ''Light'' = 5 \<and>
   length (drop_very_sore no_soreness five_rows) = 5 \<and>
   length (returned_plan
     (build_workout_plan no_jitter five_rows ''Push Day'' 45 [] no_soreness ''Light'')) = 4"
  by code_simp

text \<open>
  Claim C7, amended. For \<open>minutes\<close> below \<open>2 ^ 1027 - 2 ^ 973\<close> in size, so that
  \<^verbatim>\<open>minutes / 8\<close> is a float, and soreness ratings below \<open>2 ^ 1024 - 2 ^ 970\<close> in size,
  so that each converts to a float: with \<open>base = clamp(round(minutes / 8), 3, 10)\<close> (ties
  of the rounding to the even integer), the count is \<open>max(3, floor(base * 0.8))\<close> for Light,
  \<open>base\<close> for Moderate and \<open>min(12, floor(base * 1.2))\<close> otherwise: the products are
  truncated, not rounded. The plan is returned and has the minimum of that count and of the
  number of rows left by the soreness filter; 15 minutes at Light give 3, and 120 minutes at
  Max effort give the minimum of 12 and the rows left.
\<close>

theorem num_exercises_truncates:
  assumes "\<bar>minutes\<bar> < 8 * float_limit"
    and "\<forall>m s. soreness m = Some s \<longrightarrow> \<bar>s\<bar> < float_limit"
  shows "(\<exists>n pl.
            compute_num_exercises minutes intensity = Inr n \<and>
            n = (let base = max 3 (min 10 (py_round (of_int minutes / 8)))
                 in if intensity = ''Light'' then max 3 ((base * 4) div 5)
                    else if intensity = ''Moderate'' then base
                    else min 12 ((base * 6) div 5)) \<and>
            build_workout_plan jitter df title minutes wishes soreness intensity = Inr pl \<and>
            length pl = nat (min n (int (length (drop_very_sore soreness df))))) \<and>
         py_round (of_int minutes / 8) =
           (if minutes mod 8 < 4 then minutes div 8
            else if 4 < minutes mod 8 then minutes div 8 + 1
            else if even (minutes div 8) then minutes div 8 else minutes div 8 + 1) \<and>
         compute_num_exercises 15 ''Light'' = Inr 3 \<and>
         (\<exists>pl. build_workout_plan jitter df title 120 wishes soreness ''Max effort'' = Inr pl \<and>
               length pl = nat (min 12 (int (length (drop_very_sore soreness df)))))"
proof (intro conjI)
  note c = compute_num_exercises_int [OF assms(1), of intensity]
  from build_total [OF assms(2) c] obtain pl where
    b: "build_workout_plan jitter df title minutes wishes soreness intensity = Inr pl" by blast
  from c b length_build [OF b c]
  show "\<exists>n pl.
            compute_num_exercises minutes intensity = Inr n \<and>
            n = (let base = max 3 (min 10 (py_round (of_int minutes / 8)))
                 in if intensity = ''Light'' then max 3 ((base * 4) div 5)
                    else if intensity = ''Moderate'' then base
                    else min 12 ((base * 6) div 5)) \<and>
            build_workout_plan jitter df title minutes wishes soreness intensity = Inr pl \<and>
            length pl = nat (min n (int (length (drop_very_sore soreness df))))"
    by blast
next
  from build_total [OF assms(2) count_120_max] obtain pl where
    b: "build_workout_plan jitter df title 120 wishes soreness ''Max effort'' = Inr pl" by blast
  from b length_build [OF b count_120_max]
  show "\<exists>pl. build_workout_plan jitter df title 120 wishes soreness ''Max effort'' = Inr pl \<and>
               length pl = nat (min 12 (int (length (drop_very_sore soreness df))))"
    by blast
qed (rule py_round_eighths count_15_light)+

lemma four_rows_left: "length (drop_very_sore chest_sore four_rows) = 3"
  by code_simp

lemma round_50: "py_round (of_int 50 / 8) = 6"
  by code_simp

lemma chest_sore_in_range: "\<forall>m s. chest_sore m = Some s \<longrightarrow> \<bar>s\<bar> < float_limit"
  using float_limit_large by (auto simp: chest_sore_def split: if_splits)

lemma fifty_in_range: "\<bar>50\<bar> < 8 * float_limit"
  using float_limit_large by simp

theorem num_exercises_truncates_witness:
  "\<bar>50\<bar> < 8 * float_limit \<and>
   compute_num_exercises 50 ''Light'' = Inr 4 \<and>
   (\<exists>pl. build_workout_plan no_jitter four_rows ''Leg Day'' 50 [] chest_sore ''Light'' = Inr pl \<and>
         length pl = 3) \<and>
   (\<exists>pl. build_workout_plan no_jitter four_rows ''Leg Day'' 120 [] chest_sore ''Max effort''
           = Inr pl \<and> length pl = 3)"
proof -
  note t = num_exercises_truncates [OF fifty_in_range chest_sore_in_range,
      of "''Light''" no_jitter four_rows "''Leg Day''" "[]"]
  from t [THEN conjunct1] obtain n pl where
    n: "compute_num_exercises 50 ''Light'' = Inr n"
       "n = (let base = max 3 (min 10 (py_round (of_int 50 / 8)))
             in if ''Light'' = ''Light'' then max 3 ((base * 4) div 5)
                else if ''Light'' = ''Moderate'' then base
                else min 12 ((base * 6) div 5))"
    and b: "build_workout_plan no_jitter four_rows ''Leg Day'' 50 [] chest_sore ''Light'' = Inr pl"
       "length pl = nat (min n (int (length (drop_very_sore chest_sore four_rows))))"
    by blast
  from n(2) have n4: "n = 4" unfolding round_50 Let_def by simp
  have a: "compute_num_exercises 50 ''Light'' = Inr 4" using n(1) n4 by simp
  have "length pl = 3" using b(2) unfolding n4 four_rows_left by simp
  with b(1) have c: "\<exists>pl. build_workout_plan no_jitter four_rows ''Leg Day'' 50 [] chest_sore
      ''Light'' = Inr pl \<and> length pl = 3"
    by blast
  from t [THEN conjunct2, THEN conjunct2, THEN conjunct2] obtain pl' where
    "build_workout_plan no_jitter four_rows ''Leg Day'' 120 [] chest_sore ''Max effort'' = Inr pl'"
    "length pl' = nat (min 12 (int (length (drop_very_sore chest_sore four_rows))))"
    by blast
  then have d: "\<exists>pl. build_workout_plan no_jitter four_rows ''Leg Day'' 120 [] chest_sore
      ''Max effort'' = Inr pl \<and> length pl = 3"
    unfolding four_rows_left by auto
  from fifty_in_range a c d show ?thesis by (intro conjI)
qed

text \<open>
  Claim C9. When the soreness filter leaves no row (an empty catalog included), the call
  returns the empty plan and raises nothing, whatever the title, minutes, wishes, soreness
  and intensity.
\<close>

theorem empty_catalog_empty_plan:
  "drop_very_sore soreness df = [] \<Longrightarrow>
     build_workout_plan jitter df title minutes wishes soreness intensity = Inr []"
  by (simp add: build_workout_plan_def)

lemma chest_row_dropped: "drop_very_sore chest_sore [chest_row] = []"
  by code_simp

theorem empty_catalog_empty_plan_witness:
  "drop_very_sore chest_sore [chest_row] = [] \<and>
   build_workout_plan no_jitter [chest_row] ''Push Day'' 45 [] chest_sore ''Moderate'' = Inr []"
  using empty_catalog_empty_plan [OF chest_row_dropped, of no_jitter "''Push Day''" 45 "[]" "''Moderate''"]
    chest_row_dropped by (rule conjI [rotated])

text \<open>
  Claim C10. Two runs that differ in the \<open>wishes\<close> argument only, with the same jitter
  draws, have the same outcome: the same plan, or the same exception.
\<close>

theorem wishes_ignored:
  "build_workout_plan jitter df title minutes wishes soreness intensity
     = build_workout_plan jitter df title minutes wishes' soreness intensity"
  by (simp add: build_workout_plan_def)

theorem wishes_ignored_witness:
  "build_workout_plan no_jitter four_rows ''Push Day'' 45 ''no squats please'' chest_sore ''Moderate''
     = Inr push_day_plan"
  unfolding push_day_plan_returned [symmetric]
  by (rule wishes_ignored [of no_jitter four_rows "''Push Day''" 45 "''no squats please''" chest_sore "''Moderate''" "[]"])

section \<open>Properties of the session\<close>

lemma press_next_inner:
  assumes "\<not> finished st" "0 \<le> current_card st" "current_card st + 1 < int (length (workout st))"
  shows "press Next st = Inr (st\<lparr>current_card := current_card st + 1\<rparr>)"
  using assms by (simp add: press_def show_flashcards_def Let_def)

lemma press_next_last:
  assumes "\<not> finished st" "0 \<le> current_card st" "current_card st + 1 = int (length (workout st))"
  shows "press Next st = Inr (st\<lparr>current_card := current_card st + 1, finished := True\<rparr>)"
  using assms by (simp add: press_def show_flashcards_def Let_def)

lemma press_previous_first:
  assumes "current_card st = 0" "workout st \<noteq> []"
  shows "press Previous st = Inr st"
  using assms by (simp add: press_def show_flashcards_def Let_def)

text \<open>From card \<open>i\<close>, the remaining presses of Next walk to the end and finish there.\<close>

lemma presses_next_from:
  assumes "\<not> finished st" "0 \<le> current_card st" "current_card st + int k = int (length (workout st))"
    "0 < k"
  shows "presses (replicate k Next) st
           = Inr (st\<lparr>current_card := int (length (workout st)), finished := True\<rparr>)"
  using assms
proof (induction k arbitrary: st)
  case 0
  then show ?case by simp
next
  case (Suc k)
  show ?case
  proof (cases "k = 0")
    case True
    with Suc.prems have "current_card st + 1 = int (length (workout st))" by simp
    from press_next_last [OF Suc.prems(1,2) this] True this show ?thesis by simp
  next
    case False
    let ?st = "st\<lparr>current_card := current_card st + 1\<rparr>"
    from False Suc.prems have "current_card st + 1 < int (length (workout st))" by simp
    from press_next_inner [OF Suc.prems(1,2) this]
    have p: "press Next st = Inr ?st" .
    have "presses (replicate k Next) ?st
            = Inr (?st\<lparr>current_card := int (length (workout ?st)), finished := True\<rparr>)"
      using Suc.prems False by (intro Suc.IH) simp_all
    with p show ?thesis by simp
  qed
qed

text \<open>
  While fewer presses remain than cards lie ahead, no sequence of presses finishes the
  session or raises.
\<close>

lemma press_stays:
  assumes "\<not> finished st" "0 \<le> current_card st" "current_card st + 1 < int (length (workout st))"
  shows "\<exists>st'. press b st = Inr st' \<and> \<not> finished st' \<and> 0 \<le> current_card st' \<and>
           current_card st' \<le> current_card st + 1 \<and> workout st' = workout st"
  using assms by (cases b) (auto simp: press_def show_flashcards_def Let_def)

lemma presses_short:
  assumes "\<not> finished st" "0 \<le> current_card st"
    "current_card st + int (length bs) < int (length (workout st))"
  shows "\<exists>st'. presses bs st = Inr st' \<and> \<not> finished st'"
  using assms
proof (induction bs arbitrary: st)
  case Nil
  then show ?case by simp
next
  case (Cons b bs)
  from Cons.prems have "current_card st + 1 < int (length (workout st))" by simp
  from press_stays [OF Cons.prems(1,2) this, of b] obtain st1 where
    s: "press b st = Inr st1" "\<not> finished st1" "0 \<le> current_card st1"
       "current_card st1 \<le> current_card st + 1" "workout st1 = workout st"
    by blast
  have "\<exists>st'. presses bs st1 = Inr st' \<and> \<not> finished st'"
    using s Cons.prems(3) by (intro Cons.IH) simp_all
  with s(1) show ?case by simp
qed

text \<open>
  Claim C8. On a plan of \<open>N > 0\<close> exercises, started at card 0 and not finished, \<open>N\<close>
  presses of Next end in the finished state; every sequence of fewer than \<open>N\<close> presses of
  Next and Previous returns a state that is not finished; and Previous at card 0 returns
  the state unchanged.
\<close>

theorem session_completes_after_all_cards:
  assumes "w \<noteq> []"
  shows "presses (replicate (length w) Next) (start_session w)
           = Inr \<lparr>workout = w, current_card = int (length w), finished = True\<rparr> \<and>
         (\<forall>bs. length bs < length w \<longrightarrow>
            (\<exists>st. presses bs (start_session w) = Inr st \<and> \<not> finished st)) \<and>
         press Previous (start_session w) = Inr (start_session w)"
proof (intro conjI allI impI)
  show "presses (replicate (length w) Next) (start_session w)
           = Inr \<lparr>workout = w, current_card = int (length w), finished = True\<rparr>"
    using presses_next_from [of "start_session w" "length w"] assms
    by (simp add: start_session_def)
next
  fix bs :: "button list"
  assume "length bs < length w"
  then show "\<exists>st. presses bs (start_session w) = Inr st \<and> \<not> finished st"
    by (intro presses_short) (simp_all add: start_session_def)
next
  show "press Previous (start_session w) = Inr (start_session w)"
    using assms by (intro press_previous_first) (simp_all add: start_session_def)
qed

theorem session_completes_after_all_cards_witness:
  "push_day_plan \<noteq> [] \<and>
   presses [Next, Next, Next] (start_session push_day_plan)
     = Inr \<lparr>workout = push_day_plan, current_card = 3, finished = True\<rparr> \<and>
   (\<exists>st. presses [Next, Previous] (start_session push_day_plan) = Inr st \<and> \<not> finished st) \<and>
   press Previous (start_session push_day_plan) = Inr (start_session push_day_plan)"
proof -
  have ne: "push_day_plan \<noteq> []" using push_day_plan_length by auto
  have r: "replicate 3 Next = [Next, Next, Next]"
    by (simp add: eval_nat_numeral)
  have s: "length [Next, Previous] < length push_day_plan" by (simp add: push_day_plan_length)
  note t = session_completes_after_all_cards [OF ne]
  have a: "presses [Next, Next, Next] (start_session push_day_plan)
     = Inr \<lparr>workout = push_day_plan, current_card = 3, finished = True\<rparr>"
    using t [THEN conjunct1, unfolded push_day_plan_length r of_nat_numeral] .
  have b: "\<exists>st. presses [Next, Previous] (start_session push_day_plan) = Inr st \<and> \<not> finished st"
    using t [THEN conjunct2, THEN conjunct1, rule_format, OF s] .
  have c: "press Previous (start_session push_day_plan) = Inr (start_session push_day_plan)"
    using t [THEN conjunct2, THEN conjunct2] .
  from ne a b c show ?thesis by (intro conjI)
qed

end

